theory Spec2Isabelle
  imports Complex_Main "HOL-Library.Sublist"
begin

section \<open>Data model (data/models/policy.py)\<close>

text \<open>
  The two enumerations are plain \<open>enum.Enum\<close> classes (no \<open>str\<close> mixin). The ORM column
  \<open>Enum(PolicyStatus)\<close> loads and stores enum members, and persists them by member name.
\<close>

datatype PolicyStatus = DRAFT | PROPOSED | ENACTED | IMPLEMENTED | AMENDED | REPEALED | EXPIRED

datatype PolicyType = LEGISLATION | REGULATION | EXECUTIVE_ORDER | GUIDANCE | STANDARD | AGREEMENT

fun PolicyStatus_name :: "PolicyStatus \<Rightarrow> string" where
  "PolicyStatus_name DRAFT = ''DRAFT''"
| "PolicyStatus_name PROPOSED = ''PROPOSED''"
| "PolicyStatus_name ENACTED = ''ENACTED''"
| "PolicyStatus_name IMPLEMENTED = ''IMPLEMENTED''"
| "PolicyStatus_name AMENDED = ''AMENDED''"
| "PolicyStatus_name REPEALED = ''REPEALED''"
| "PolicyStatus_name EXPIRED = ''EXPIRED''"

definition PolicyStatus_members :: "PolicyStatus list" where
  "PolicyStatus_members = [DRAFT, PROPOSED, ENACTED, IMPLEMENTED, AMENDED, REPEALED, EXPIRED]"

definition PolicyStatus_of_name :: "string \<Rightarrow> PolicyStatus option" where
  "PolicyStatus_of_name s = find (\<lambda>m. PolicyStatus_name m = s) PolicyStatus_members"

text \<open>
  A \<open>datetime\<close> is a naive UTC instant, counted in microseconds; \<open>timedelta(days=d)\<close> is
  \<open>d\<close> days of 86400 seconds. A \<open>Float\<close> column is read as a real number: rounding and
  the special values of binary floating point are outside this model.
\<close>

type_synonym datetime = int

definition timedelta_days :: "int \<Rightarrow> int" where
  "timedelta_days d = d * 86400000000"

text \<open>
  One record serves both for the ORM class \<open>Policy\<close> and for \<open>PolicySchema\<close>: the schema has
  the same attributes (\<open>from_attributes = True\<close>), and \<open>id\<close> is \<open>None\<close> until the row
  has been inserted. The primary key is called \<open>id_policy\<close> here, since \<open>id\<close> is HOL's identity.
\<close>

record Policy =
  id_policy :: "int option"
  title :: string
  description :: "string option"
  policy_number :: string
  jurisdiction :: string
  policy_type :: PolicyType
  status :: PolicyStatus
  proposed_date :: "datetime option"
  enacted_date :: "datetime option"
  effective_date :: "datetime option"
  expiration_date :: "datetime option"
  regulatory_body :: "string option"
  authority :: "string option"
  content_summary :: "string option"
  full_text_url :: "string option"
  source_url :: "string option"
  estimated_impact :: "real option"
  impact_confidence :: "real option"
  affected_industries :: "string list option"
  category_id :: "int option"

record PolicyChange =
  id_change :: "int option"
  policy_id :: int
  change_type :: string
  change_date :: datetime
  change_description :: "string option"
  impact_magnitude :: "real option"
  impact_direction :: "string option"
  source_document :: "string option"
  legislative_session :: "string option"

text \<open>
  The database behind a \<open>Session\<close>: the rows of \<open>policies\<close> in storage order, the sequence
  that feeds its primary key, the rows of \<open>policy_changes\<close>, and, of the three other
  tables that share a foreign key with \<open>policies\<close>, the column that key uses: the \<open>id\<close>s
  of \<open>policy_categories\<close>, the \<open>policy_id\<close>s of \<open>impact_assessments\<close> and the nullable
  \<open>target_policy_id\<close>s of \<open>policy_predictions\<close>. The store keeps a value as it was given;
  what it enforces are the declared keys.
\<close>

record db_state =
  policies :: "Policy list"
  policies_id_seq :: int
  policy_changes :: "PolicyChange list"
  policy_categories :: "int list"
  impact_assessments :: "int list"
  policy_predictions :: "int option list"

datatype http_error = HTTP_404 | HTTP_422 | HTTP_500


section \<open>Query layer\<close>

subsection \<open>Request validation (fastapi.Query)\<close>

text \<open>
  \<open>Query(default, ge=.., le=..)\<close>: an absent parameter takes the default, a supplied one is
  checked against the declared bounds and the request is answered 422 when it violates one.
\<close>

definition Query :: "int \<Rightarrow> int option \<Rightarrow> int option \<Rightarrow> int option \<Rightarrow> http_error + int" where
  "Query dflt ge le v =
     (case v of
        None \<Rightarrow> Inr dflt
      | Some x \<Rightarrow>
          if (case ge of None \<Rightarrow> True | Some g \<Rightarrow> g \<le> x) \<and> (case le of None \<Rightarrow> True | Some l \<Rightarrow> x \<le> l)
          then Inr x else Inl HTTP_422)"

subsection \<open>SQL conditions\<close>

text \<open>
  A condition on a nullable column is three-valued: \<open>None\<close> is SQL's unknown. A row passes
  \<open>WHERE\<close> only when the condition is true.
\<close>

definition sql_lt :: "'a::linorder option \<Rightarrow> 'a \<Rightarrow> bool option" where
  "sql_lt col v = (case col of None \<Rightarrow> None | Some x \<Rightarrow> Some (x < v))"

definition sql_ge :: "'a::linorder option \<Rightarrow> 'a \<Rightarrow> bool option" where
  "sql_ge col v = (case col of None \<Rightarrow> None | Some x \<Rightarrow> Some (v \<le> x))"

definition sql_le :: "'a::linorder option \<Rightarrow> 'a \<Rightarrow> bool option" where
  "sql_le col v = (case col of None \<Rightarrow> None | Some x \<Rightarrow> Some (x \<le> v))"

definition sql_eq :: "'a option \<Rightarrow> 'a \<Rightarrow> bool option" where
  "sql_eq col v = (case col of None \<Rightarrow> None | Some x \<Rightarrow> Some (x = v))"

definition sql_or :: "bool option \<Rightarrow> bool option \<Rightarrow> bool option" where
  "sql_or a b =
     (if a = Some True \<or> b = Some True then Some True
      else if a = None \<or> b = None then None
      else Some False)"

definition sql_where :: "('r \<Rightarrow> bool option) \<Rightarrow> 'r list \<Rightarrow> 'r list" where
  "sql_where cond rows = filter (\<lambda>r. cond r = Some True) rows"

text \<open>\<open>column.contains([industry])\<close> on a JSONB list: the containment operator \<open>@>\<close>.\<close>

definition jsonb_contains :: "string list option \<Rightarrow> string \<Rightarrow> bool option" where
  "jsonb_contains col v = (case col of None \<Rightarrow> None | Some xs \<Rightarrow> Some (v \<in> set xs))"

subsection \<open>Python truthiness\<close>

definition truthy_str :: "string \<Rightarrow> bool" where
  "truthy_str s = (s \<noteq> [])"

definition truthy_int :: "int \<Rightarrow> bool" where
  "truthy_int n = (n \<noteq> 0)"

definition truthy_datetime :: "datetime \<Rightarrow> bool" where
  "truthy_datetime d = True"

text \<open>
  \<open>if arg: query = query.filter(cond)\<close>: the filter is added only for an argument that is
  present and truthy.
\<close>

definition filter_if ::
  "'a option \<Rightarrow> ('a \<Rightarrow> bool) \<Rightarrow> ('a \<Rightarrow> 'r \<Rightarrow> bool option) \<Rightarrow> 'r list \<Rightarrow> 'r list" where
  "filter_if arg truthy cond query =
     (case arg of
        None \<Rightarrow> query
      | Some v \<Rightarrow> if truthy v then sql_where (cond v) query else query)"

text \<open>
  Python's \<open>==\<close> between the values that meet in the summary: two strings or two enum
  members compare by value, an enum member and a string are never equal.
\<close>

datatype py_value = PyStr string | PyEnum PolicyStatus

fun py_eq :: "py_value \<Rightarrow> py_value \<Rightarrow> bool" where
  "py_eq (PyStr a) (PyStr b) = (a = b)"
| "py_eq (PyEnum a) (PyEnum b) = (a = b)"
| "py_eq _ _ = False"


section \<open>Handlers (app/api/routers/policies.py)\<close>

subsection \<open>get_policies\<close>

text \<open>
  The bound value of \<open>Policy.status == status\<close> is a string; the database coerces it to the
  enum type and raises for a string that is no member name, which the handler turns
  into a 500.
\<close>

definition get_policies ::
  "db_state \<Rightarrow> int option \<Rightarrow> int option \<Rightarrow> string option \<Rightarrow> string option \<Rightarrow> string option \<Rightarrow>
   int option \<Rightarrow> datetime option \<Rightarrow> datetime option \<Rightarrow> http_error + Policy list" where
  "get_policies db skip limit jurisdiction' industry status' category_id' start_date end_date =
     (case Query 0 (Some 0) None skip of
        Inl e \<Rightarrow> Inl e
      | Inr skip_v \<Rightarrow>
     (case Query 100 (Some 1) (Some 1000) limit of
        Inl e \<Rightarrow> Inl e
      | Inr limit_v \<Rightarrow>
          if (case status' of None \<Rightarrow> False | Some s \<Rightarrow> truthy_str s \<and> PolicyStatus_of_name s = None)
          then Inl HTTP_500
          else
            let query = policies db;
                query = filter_if jurisdiction' truthy_str (\<lambda>v p. Some (jurisdiction p = v)) query;
                query = filter_if industry truthy_str (\<lambda>v p. jsonb_contains (affected_industries p) v) query;
                query = filter_if status' truthy_str (\<lambda>v p. Some (PolicyStatus_name (status p) = v)) query;
                query = filter_if category_id' truthy_int (\<lambda>v p. sql_eq (category_id p) v) query;
                query = filter_if start_date truthy_datetime (\<lambda>v p. sql_ge (proposed_date p) v) query;
                query = filter_if end_date truthy_datetime (\<lambda>v p. sql_le (proposed_date p) v) query
            in Inr (take (nat limit_v) (drop (nat skip_v) query))))"

subsection \<open>get_policy_analytics_summary\<close>

text \<open>
  A Python \<open>dict\<close> keeps its keys in insertion order: an association list with at most one
  entry per key. \<open>dict_set\<close> is \<open>d[k] = v\<close>, \<open>dict_get\<close> is \<open>d.get(k, default)\<close>.
\<close>

fun dict_set :: "('k \<times> 'v) list \<Rightarrow> 'k \<Rightarrow> 'v \<Rightarrow> ('k \<times> 'v) list" where
  "dict_set [] k v = [(k, v)]"
| "dict_set ((k', v') # d) k v = (if k' = k then (k, v) # d else (k', v') # dict_set d k v)"

fun dict_get :: "('k \<times> 'v) list \<Rightarrow> 'k \<Rightarrow> 'v \<Rightarrow> 'v" where
  "dict_get [] k dflt = dflt"
| "dict_get ((k', v') # d) k dflt = (if k' = k then v' else dict_get d k dflt)"

text \<open>The loop body \<open>counts[k] = counts.get(k, 0) + 1\<close>.\<close>

definition tally :: "(string \<times> nat) list \<Rightarrow> string \<Rightarrow> (string \<times> nat) list" where
  "tally counts k = dict_set counts k (dict_get counts k 0 + 1)"

text \<open>
  \<open>if policy.affected_industries: for industry in policy.affected_industries: ...\<close>;
  \<open>None\<close> and the empty list are both falsy.
\<close>

definition tally_industries :: "(string \<times> nat) list \<Rightarrow> Policy \<Rightarrow> (string \<times> nat) list" where
  "tally_industries counts policy =
     (case affected_industries policy of
        None \<Rightarrow> counts
      | Some inds \<Rightarrow> if inds \<noteq> [] then foldl tally counts inds else counts)"

record analytics_summary =
  total_policies :: nat
  enacted_policies :: nat
  proposed_policies :: nat
  average_impact :: real
  jurisdiction_breakdown :: "(string \<times> nat) list"
  industry_breakdown :: "(string \<times> nat) list"
  analysis_period :: "datetime option \<times> datetime option"

definition summarize :: "Policy list \<Rightarrow> datetime option \<Rightarrow> datetime option \<Rightarrow> analytics_summary" where
  "summarize rows start_date end_date =
     (let impacts = [the (estimated_impact p). p \<leftarrow> rows, estimated_impact p \<noteq> None]
      in \<lparr> total_policies = length rows,
           enacted_policies = length [p \<leftarrow> rows. py_eq (PyEnum (status p)) (PyStr ''ENACTED'')],
           proposed_policies = length [p \<leftarrow> rows. py_eq (PyEnum (status p)) (PyStr ''PROPOSED'')],
           average_impact = (if impacts \<noteq> [] then sum_list impacts / real (length impacts) else 0),
           jurisdiction_breakdown = foldl (\<lambda>counts policy. tally counts (jurisdiction policy)) [] rows,
           industry_breakdown = foldl tally_industries [] rows,
           analysis_period = (start_date, end_date) \<rparr>)"

definition filtered_policies :: "db_state \<Rightarrow> string option \<Rightarrow> datetime option \<Rightarrow> datetime option \<Rightarrow> Policy list" where
  "filtered_policies db jurisdiction' start_date end_date =
     (let query = policies db;
          query = filter_if jurisdiction' truthy_str (\<lambda>v p. Some (jurisdiction p = v)) query;
          query = filter_if start_date truthy_datetime (\<lambda>v p. sql_ge (proposed_date p) v) query;
          query = filter_if end_date truthy_datetime (\<lambda>v p. sql_le (proposed_date p) v) query
      in query)"

definition get_policy_analytics_summary ::
  "db_state \<Rightarrow> string option \<Rightarrow> datetime option \<Rightarrow> datetime option \<Rightarrow> http_error + analytics_summary" where
  "get_policy_analytics_summary db jurisdiction' start_date end_date =
     Inr (summarize (filtered_policies db jurisdiction' start_date end_date) start_date end_date)"

subsection \<open>get_policy\<close>

definition get_policy :: "db_state \<Rightarrow> int \<Rightarrow> http_error + Policy" where
  "get_policy db policy_id' =
     (case find (\<lambda>p. id_policy p = Some policy_id') (policies db) of
        None \<Rightarrow> Inl HTTP_404
      | Some policy \<Rightarrow> Inr policy)"

subsection \<open>create_policy, update_policy, delete_policy\<close>

text \<open>
  What \<open>db.commit()\<close> checks for a row of \<open>policies\<close>: the primary key and \<open>policy_number\<close>
  are unique, and \<open>category_id\<close> is null or the id of a category. A violation raises; the
  handler rolls back and answers 500.
\<close>

definition policy_number_unique :: "db_state \<Rightarrow> Policy \<Rightarrow> bool" where
  "policy_number_unique db row =
     list_all (\<lambda>r. id_policy r = id_policy row \<or> policy_number r \<noteq> policy_number row) (policies db)"

definition category_exists :: "db_state \<Rightarrow> Policy \<Rightarrow> bool" where
  "category_exists db row =
     (case category_id row of None \<Rightarrow> True | Some c \<Rightarrow> c \<in> set (policy_categories db))"

definition primary_key_free :: "db_state \<Rightarrow> Policy \<Rightarrow> bool" where
  "primary_key_free db row = list_all (\<lambda>r. id_policy r \<noteq> id_policy row) (policies db)"

text \<open>
  \<open>Policy(**policy.dict(exclude={"id"}))\<close> has no id, so the insert draws one from the
  sequence. A sequence is not rolled back: a failed insert has used its number too.
\<close>

definition create_policy :: "db_state \<Rightarrow> Policy \<Rightarrow> (http_error + Policy) \<times> db_state" where
  "create_policy db policy =
     (let new_id = policies_id_seq db;
          db_policy = policy\<lparr>id_policy := Some new_id\<rparr>;
          db' = db\<lparr>policies_id_seq := new_id + 1\<rparr>
      in if primary_key_free db db_policy \<and> policy_number_unique db db_policy \<and> category_exists db db_policy
         then (Inr db_policy, db'\<lparr>policies := policies db @ [db_policy]\<rparr>)
         else (Inl HTTP_500, db'))"

text \<open>
  The body parameter of the update defaults to \<open>None\<close>; \<open>policy.dict\<close> then raises inside
  the \<open>try\<close>, after the lookup. Every attribute but the id is overwritten from the payload.
\<close>

definition update_policy :: "db_state \<Rightarrow> int \<Rightarrow> Policy option \<Rightarrow> (http_error + Policy) \<times> db_state" where
  "update_policy db policy_id' policy =
     (case find (\<lambda>p. id_policy p = Some policy_id') (policies db) of
        None \<Rightarrow> (Inl HTTP_404, db)
      | Some found \<Rightarrow>
          (case policy of
             None \<Rightarrow> (Inl HTTP_500, db)
           | Some payload \<Rightarrow>
               let db_policy = payload\<lparr>id_policy := id_policy found\<rparr>
               in if policy_number_unique db db_policy \<and> category_exists db db_policy
                  then (Inr db_policy,
                        db\<lparr>policies := map (\<lambda>r. if id_policy r = Some policy_id' then db_policy else r) (policies db)\<rparr>)
                  else (Inl HTTP_500, db)))"

text \<open>
  No relationship of \<open>Policy\<close> cascades a delete and no foreign key has an \<open>ON DELETE\<close>
  rule, so a policy that a change, an assessment or a prediction still refers to cannot be
  deleted: the flush raises, the handler rolls back and answers 500.
\<close>

definition referenced :: "db_state \<Rightarrow> int \<Rightarrow> bool" where
  "referenced db policy_id' =
     (policy_id' \<in> set (map policy_id (policy_changes db))
      \<or> policy_id' \<in> set (impact_assessments db)
      \<or> Some policy_id' \<in> set (policy_predictions db))"

definition delete_policy :: "db_state \<Rightarrow> int \<Rightarrow> (http_error + string) \<times> db_state" where
  "delete_policy db policy_id' =
     (case find (\<lambda>p. id_policy p = Some policy_id') (policies db) of
        None \<Rightarrow> (Inl HTTP_404, db)
      | Some db_policy \<Rightarrow>
          if referenced db policy_id' then (Inl HTTP_500, db)
          else (Inr ''Policy deleted successfully'',
                db\<lparr>policies := filter (\<lambda>r. id_policy r \<noteq> Some policy_id') (policies db)\<rparr>))"

subsection \<open>get_policy_changes\<close>

definition get_policy_changes :: "db_state \<Rightarrow> int \<Rightarrow> http_error + PolicyChange list" where
  "get_policy_changes db policy_id' = Inr [c \<leftarrow> policy_changes db. policy_id c = policy_id']"

subsection \<open>search_policies\<close>

text \<open>
  \<open>LIKE\<close> patterns: \<open>%\<close> stands for any string, \<open>_\<close> for any one character, and a backslash
  makes the next character stand for itself; a pattern may not end in a lone backslash.
  \<open>ILIKE\<close> compares in lower case (of the ASCII letters, in this model).
\<close>

datatype like_token = AnyString | AnyChar | Literal char

definition like_token_of :: "char \<Rightarrow> like_token" where
  "like_token_of c = (if c = CHR ''%'' then AnyString else if c = CHR ''_'' then AnyChar else Literal c)"

fun like_pattern :: "string \<Rightarrow> like_token list option" where
  "like_pattern [] = Some []"
| "like_pattern [c] = (if c = CHR 0x5C then None else Some [like_token_of c])"
| "like_pattern (c # d # cs) =
     (if c = CHR 0x5C then map_option ((#) (Literal d)) (like_pattern cs)
      else map_option ((#) (like_token_of c)) (like_pattern (d # cs)))"

fun like_match :: "like_token list \<Rightarrow> string \<Rightarrow> bool" where
  "like_match [] s = (s = [])"
| "like_match (AnyString # ps) [] = like_match ps []"
| "like_match (AnyString # ps) (c # cs) = (like_match ps (c # cs) \<or> like_match (AnyString # ps) cs)"
| "like_match (AnyChar # ps) [] = False"
| "like_match (AnyChar # ps) (c # cs) = like_match ps cs"
| "like_match (Literal d # ps) [] = False"
| "like_match (Literal d # ps) (c # cs) = (d = c \<and> like_match ps cs)"

definition lower_char :: "char \<Rightarrow> char" where
  "lower_char c =
     (let n = (of_char c :: nat) in if 65 \<le> n \<and> n \<le> 90 then char_of (n + 32) else c)"

definition lower :: "string \<Rightarrow> string" where
  "lower s = map lower_char s"

definition ilike :: "string option \<Rightarrow> like_token list \<Rightarrow> bool option" where
  "ilike col pattern = (case col of None \<Rightarrow> None | Some s \<Rightarrow> Some (like_match pattern (lower s)))"

definition search_policies ::
  "db_state \<Rightarrow> string option \<Rightarrow> int option \<Rightarrow> int option \<Rightarrow> http_error + Policy list" where
  "search_policies db q skip limit =
     (case q of
        None \<Rightarrow> Inl HTTP_422
      | Some q_v \<Rightarrow>
     (case Query 0 (Some 0) None skip of
        Inl e \<Rightarrow> Inl e
      | Inr skip_v \<Rightarrow>
     (case Query 100 (Some 1) (Some 1000) limit of
        Inl e \<Rightarrow> Inl e
      | Inr limit_v \<Rightarrow>
     (case like_pattern (lower (''%'' @ q_v @ ''%'')) of
        None \<Rightarrow> Inl HTTP_500
      | Some pattern \<Rightarrow>
          let query = sql_where
                (\<lambda>p. sql_or (sql_or (ilike (Some (title p)) pattern) (ilike (description p) pattern))
                             (ilike (content_summary p) pattern))
                (policies db)
          in Inr (take (nat limit_v) (drop (nat skip_v) query))))))"

subsection \<open>get_recent_policies, get_high_risk_policies\<close>

text \<open>
  \<open>ORDER BY\<close> as an insertion sort. The database puts nulls last in ascending order and
  first in descending order.
\<close>

fun asc_le :: "'a::linorder option \<Rightarrow> 'a option \<Rightarrow> bool" where
  "asc_le (Some x) (Some y) = (x \<le> y)"
| "asc_le None (Some y) = False"
| "asc_le a None = True"

fun desc_le :: "'a::linorder option \<Rightarrow> 'a option \<Rightarrow> bool" where
  "desc_le (Some x) (Some y) = (y \<le> x)"
| "desc_le (Some x) None = False"
| "desc_le None b = True"

fun insert_by :: "('r \<Rightarrow> 'r \<Rightarrow> bool) \<Rightarrow> 'r \<Rightarrow> 'r list \<Rightarrow> 'r list" where
  "insert_by le x [] = [x]"
| "insert_by le x (y # ys) = (if le x y then x # y # ys else y # insert_by le x ys)"

definition order_by :: "('r \<Rightarrow> 'r \<Rightarrow> bool) \<Rightarrow> 'r list \<Rightarrow> 'r list" where
  "order_by le rows = foldr (insert_by le) rows []"

text \<open>\<open>now\<close> is the reading of \<open>datetime.utcnow()\<close>.\<close>

definition get_recent_policies ::
  "db_state \<Rightarrow> datetime \<Rightarrow> int option \<Rightarrow> int option \<Rightarrow> http_error + Policy list" where
  "get_recent_policies db now days limit =
     (case Query 30 (Some 1) (Some 365) days of
        Inl e \<Rightarrow> Inl e
      | Inr days_v \<Rightarrow>
     (case Query 50 (Some 1) (Some 500) limit of
        Inl e \<Rightarrow> Inl e
      | Inr limit_v \<Rightarrow>
          let cutoff_date = now - timedelta_days days_v;
              query = sql_where (\<lambda>p. sql_ge (proposed_date p) cutoff_date) (policies db);
              query = order_by (\<lambda>a b. desc_le (proposed_date a) (proposed_date b)) query
          in Inr (take (nat limit_v) query)))"

definition get_high_risk_policies :: "db_state \<Rightarrow> int option \<Rightarrow> http_error + Policy list" where
  "get_high_risk_policies db limit =
     (case Query 50 (Some 1) (Some 500) limit of
        Inl e \<Rightarrow> Inl e
      | Inr limit_v \<Rightarrow>
          let query = sql_where
                (\<lambda>p. sql_or (sql_lt (estimated_impact p) (- 100)) (sql_lt (impact_confidence p) 0.6))
                (policies db);
              query = order_by (\<lambda>a b. asc_le (estimated_impact a) (estimated_impact b)) query
          in Inr (take (nat limit_v) query))"


section \<open>Invariant and example data\<close>

text \<open>The foreign key of \<open>policy_changes\<close>: every change belongs to a stored policy.\<close>

definition changes_reference_policies :: "db_state \<Rightarrow> bool" where
  "changes_reference_policies db =
     list_all (\<lambda>c. Some (policy_id c) \<in> set (map id_policy (policies db))) (policy_changes db)"

text \<open>The foreign keys into \<open>policies\<close> of all three referring tables.\<close>

definition references_hold :: "db_state \<Rightarrow> bool" where
  "references_hold db =
     (changes_reference_policies db
      \<and> list_all (\<lambda>i. Some i \<in> set (map id_policy (policies db))) (impact_assessments db)
      \<and> list_all (\<lambda>t. t = None \<or> t \<in> set (map id_policy (policies db))) (policy_predictions db))"

text \<open>The tags a policy contributes to the industry breakdown.\<close>

definition industry_tags :: "Policy \<Rightarrow> string list" where
  "industry_tags p = (case affected_industries p of None \<Rightarrow> [] | Some inds \<Rightarrow> inds)"

text \<open>
  The search as the specification words it: \<open>q\<close> occurs in the text as a contiguous
  substring, letter case aside; a null column contains nothing.
\<close>

definition spec_contains :: "string \<Rightarrow> string option \<Rightarrow> bool" where
  "spec_contains q col = (case col of None \<Rightarrow> False | Some s \<Rightarrow> sublist (lower q) (lower s))"

definition spec_search_match :: "string \<Rightarrow> Policy \<Rightarrow> bool" where
  "spec_search_match q p =
     (spec_contains q (Some (title p)) \<or> spec_contains q (description p) \<or> spec_contains q (content_summary p))"

text \<open>The policy of the specification's round-trip example, and a database with no rows.\<close>

definition test_policy :: Policy where
  "test_policy =
     \<lparr> id_policy = None, title = ''Test'', description = None, policy_number = ''US-TST-0001'',
       jurisdiction = ''US'', policy_type = REGULATION, status = DRAFT,
       proposed_date = None, enacted_date = None, effective_date = None, expiration_date = None,
       regulatory_body = None, authority = None, content_summary = None, full_text_url = None,
       source_url = None, estimated_impact = None, impact_confidence = None,
       affected_industries = None, category_id = None \<rparr>"

definition empty_db :: db_state where
  "empty_db =
     \<lparr> policies = [], policies_id_seq = 1, policy_changes = [], policy_categories = [],
       impact_assessments = [], policy_predictions = [] \<rparr>"


definition test_change :: PolicyChange where
  "test_change =
     \<lparr> id_change = Some 1, policy_id = 1, change_type = ''amendment'', change_date = 0,
       change_description = None, impact_magnitude = None, impact_direction = None,
       source_document = None, legislative_session = None \<rparr>"

text \<open>A database holding the test policy under id 1 and one change of it.\<close>

definition test_db :: db_state where
  "test_db = empty_db\<lparr>policies := [test_policy\<lparr>id_policy := Some 1\<rparr>], policies_id_seq := 2,
       policy_changes := [test_change]\<rparr>"


text \<open>Four policies for the high-risk listing, and four for the recent listing.\<close>

definition risk_db :: db_state where
  "risk_db = empty_db\<lparr>policies :=
       [test_policy\<lparr>id_policy := Some 1, estimated_impact := Some (- 150), impact_confidence := Some 0.9\<rparr>,
        test_policy\<lparr>id_policy := Some 2, policy_number := ''US-TST-0002'', impact_confidence := Some 0.5\<rparr>,
        test_policy\<lparr>id_policy := Some 3, policy_number := ''US-TST-0003'', estimated_impact := Some (- 250)\<rparr>,
        test_policy\<lparr>id_policy := Some 4, policy_number := ''US-TST-0004'', estimated_impact := Some (- 50),
          impact_confidence := Some 0.8\<rparr>],
     policies_id_seq := 5\<rparr>"

definition recent_db :: db_state where
  "recent_db = empty_db\<lparr>policies :=
       [test_policy\<lparr>id_policy := Some 1, proposed_date := Some (timedelta_days 90)\<rparr>,
        test_policy\<lparr>id_policy := Some 2, policy_number := ''US-TST-0002'', proposed_date := Some (timedelta_days 10)\<rparr>,
        test_policy\<lparr>id_policy := Some 3, policy_number := ''US-TST-0003''\<rparr>,
        test_policy\<lparr>id_policy := Some 4, policy_number := ''US-TST-0004'', proposed_date := Some (timedelta_days 95)\<rparr>],
     policies_id_seq := 5\<rparr>"


text \<open>Two policies for the search.\<close>

definition search_db :: db_state where
  "search_db = empty_db\<lparr>policies :=
       [test_policy\<lparr>id_policy := Some 1, title := ''Carbon Tax'', description := Some ''Levy on emissions''\<rparr>,
        test_policy\<lparr>id_policy := Some 2, policy_number := ''US-TST-0002'', title := ''Corporate tax''\<rparr>],
     policies_id_seq := 3\<rparr>"


section \<open>Analytics summary\<close>


lemma enacted_policies_zero: "enacted_policies (summarize rows sd ed) = 0"
  by (simp add: summarize_def Let_def)

lemma proposed_policies_zero: "proposed_policies (summarize rows sd ed) = 0"
  by (simp add: summarize_def Let_def)

text \<open>
  C1. The summary is to return the total count, the count of the policies whose status is
  ENACTED and the count of those whose status is PROPOSED. The total is the length of the
  filtered set. The two status counts compare the loaded enum member with a string, so
  they are 0 for every filtered set: here for a set holding one enacted and one proposed
  policy.
\<close>

theorem C1_enacted_count_failing_input:
  "get_policy_analytics_summary
     (empty_db\<lparr>policies :=
        [test_policy\<lparr>id_policy := Some 1, status := ENACTED\<rparr>,
         test_policy\<lparr>id_policy := Some 2, policy_number := ''US-TST-0002'', status := PROPOSED\<rparr>]\<rparr>)
     None None None
   = Inr \<lparr> total_policies = 2, enacted_policies = 0, proposed_policies = 0, average_impact = 0,
           jurisdiction_breakdown = [(''US'', 2)], industry_breakdown = [],
           analysis_period = (None, None) \<rparr>"
  by (simp add: get_policy_analytics_summary_def filtered_policies_def filter_if_def summarize_def
      empty_db_def test_policy_def tally_def tally_industries_def)




section \<open>Industry breakdown\<close>

lemma dict_get_dict_set:
  "dict_get (dict_set d k v) t dflt = (if t = k then v else dict_get d t dflt)"
  by (induction d k v rule: dict_set.induct) auto

lemma sum_dict_set:
  fixes d :: "('k \<times> nat) list"
  shows "sum_list (map snd (dict_set d k v)) + dict_get d k 0 = sum_list (map snd d) + v"
  by (induction d k v rule: dict_set.induct) auto

lemma dict_get_tally: "dict_get (tally d k) t 0 = dict_get d t 0 + (if t = k then 1 else 0)"
  by (simp add: tally_def dict_get_dict_set)

lemma sum_tally: "sum_list (map snd (tally d k)) = sum_list (map snd d) + 1"
  using sum_dict_set [of d k "dict_get d k 0 + 1"] by (simp add: tally_def)

lemma dict_get_foldl_tally:
  "dict_get (foldl tally d ks) t 0 = dict_get d t 0 + count_list ks t"
  by (induction ks arbitrary: d) (auto simp: dict_get_tally)

lemma sum_foldl_tally:
  "sum_list (map snd (foldl tally d ks)) = sum_list (map snd d) + length ks"
  by (induction ks arbitrary: d) (auto simp: sum_tally)

lemma tally_industries_tags: "tally_industries d p = foldl tally d (industry_tags p)"
  by (auto simp: tally_industries_def industry_tags_def split: option.splits)

lemma dict_get_industries:
  "dict_get (foldl tally_industries d rows) t 0
     = dict_get d t 0 + (\<Sum>p\<leftarrow>rows. count_list (industry_tags p) t)"
  by (induction rows arbitrary: d) (auto simp: tally_industries_tags dict_get_foldl_tally)

lemma sum_industries:
  "sum_list (map snd (foldl tally_industries d rows))
     = sum_list (map snd d) + (\<Sum>p\<leftarrow>rows. length (industry_tags p))"
  by (induction rows arbitrary: d) (auto simp: tally_industries_tags sum_foldl_tally)

lemma industry_breakdown_summarize:
  "industry_breakdown (summarize rows sd ed) = foldl tally_industries [] rows"
  by (simp add: summarize_def Let_def)

text \<open>
  C3, as amended. \<open>affected_industries\<close> is a list, and a tag may occur in it more than once.
  Adding a policy whose list has N entries to the filtered set, all else equal, raises the
  bucket of every tag by the number of times the tag occurs in the list and the total of
  the breakdown by N. When the N entries are distinct, N distinct buckets rise by one
  each and no other bucket changes.
\<close>

theorem C3_industry_breakdown_per_tag:
  "affected_industries p = Some tags \<longrightarrow>
     (let before = industry_breakdown (summarize (xs @ ys) sd ed);
          after = industry_breakdown (summarize (xs @ p # ys) sd ed)
      in sum_list (map snd after) = sum_list (map snd before) + length tags
         \<and> (\<forall>t. dict_get after t 0 = dict_get before t 0 + count_list tags t)
         \<and> (distinct tags \<longrightarrow>
              card (set tags) = length tags
              \<and> (\<forall>t\<in>set tags. dict_get after t 0 = dict_get before t 0 + 1)
              \<and> (\<forall>t. t \<notin> set tags \<longrightarrow> dict_get after t 0 = dict_get before t 0)))"
proof
  assume tags: "affected_industries p = Some tags"
  then have it: "industry_tags p = tags" by (simp add: industry_tags_def)
  have one: "distinct tags \<Longrightarrow> t \<in> set tags \<Longrightarrow> count_list tags t = 1" for t
    by (induction tags) auto
  have none: "t \<notin> set tags \<Longrightarrow> count_list tags t = 0" for t
    by simp
  show "let before = industry_breakdown (summarize (xs @ ys) sd ed);
          after = industry_breakdown (summarize (xs @ p # ys) sd ed)
      in sum_list (map snd after) = sum_list (map snd before) + length tags
         \<and> (\<forall>t. dict_get after t 0 = dict_get before t 0 + count_list tags t)
         \<and> (distinct tags \<longrightarrow>
              card (set tags) = length tags
              \<and> (\<forall>t\<in>set tags. dict_get after t 0 = dict_get before t 0 + 1)
              \<and> (\<forall>t. t \<notin> set tags \<longrightarrow> dict_get after t 0 = dict_get before t 0))"
    unfolding Let_def industry_breakdown_summarize dict_get_industries sum_industries
    using one none by (simp add: it distinct_card)
qed

theorem C3_industry_breakdown_per_tag_witness:
  "(let before = industry_breakdown (summarize [test_policy\<lparr>affected_industries := Some [''energy'']\<rparr>] None None);
        after = industry_breakdown (summarize
                  [test_policy\<lparr>affected_industries := Some [''energy'']\<rparr>,
                   test_policy\<lparr>affected_industries := Some [''tech'', ''energy'', ''finance'']\<rparr>] None None)
    in sum_list (map snd after) = sum_list (map snd before) + 3
       \<and> dict_get after ''energy'' 0 = dict_get before ''energy'' 0 + 1
       \<and> dict_get after ''tech'' 0 = dict_get before ''tech'' 0 + 1
       \<and> dict_get after ''finance'' 0 = dict_get before ''finance'' 0 + 1)"
  using C3_industry_breakdown_per_tag
    [of "test_policy\<lparr>affected_industries := Some [''tech'', ''energy'', ''finance'']\<rparr>"
        "[''tech'', ''energy'', ''finance'']"
        "[test_policy\<lparr>affected_industries := Some [''energy'']\<rparr>]" "[]" None None]
  by (simp add: Let_def)

text \<open>
  C3 as stated fails for a policy that lists a tag twice: its two tags raise one bucket,
  by two.
\<close>

theorem C3_duplicate_tags_counterexample:
  "(let p = test_policy\<lparr>affected_industries := Some [''tech'', ''tech'']\<rparr>;
        before = industry_breakdown (summarize [] None None);
        after = industry_breakdown (summarize [p] None None)
    in length (industry_tags p) = 2
       \<and> before = []
       \<and> after = [(''tech'', 2)]
       \<and> length [k \<leftarrow> map fst after. dict_get after k 0 = dict_get before k 0 + 1] \<noteq> 2)"
  by (simp add: summarize_def tally_industries_def tally_def industry_tags_def test_policy_def)


section \<open>Validation and filters\<close>

lemma Query_rejects:
  "Query dflt ge le (Some x) = Inl HTTP_422 \<longleftrightarrow>
     (\<exists>g. ge = Some g \<and> x < g) \<or> (\<exists>l. le = Some l \<and> l < x)"
  by (auto simp: Query_def split: option.splits)

lemma Query_accepts:
  "Query dflt ge le v = Inr x \<longleftrightarrow>
     (v = None \<and> x = dflt) \<or>
     (v = Some x \<and> (\<forall>g. ge = Some g \<longrightarrow> g \<le> x) \<and> (\<forall>l. le = Some l \<longrightarrow> x \<le> l))"
  by (auto simp: Query_def split: option.splits)

text \<open>
  C7. A listing or search request whose \<open>skip\<close> is below 0, or whose \<open>limit\<close> is below 1
  or above 1000, is answered with the validation error 422, whatever the other
  parameters and the stored rows are: no page is returned, so no value is clamped.
\<close>

theorem C7_out_of_range_rejected:
  "(\<exists>x. skip = Some x \<and> x < 0) \<or> (\<exists>x. limit = Some x \<and> (x < 1 \<or> 1000 < x)) \<Longrightarrow>
     get_policies db skip limit j i s c sd ed = Inl HTTP_422
     \<and> (\<forall>q. search_policies db q skip limit = Inl HTTP_422)"
proof -
  assume bad: "(\<exists>x. skip = Some x \<and> x < 0) \<or> (\<exists>x. limit = Some x \<and> (x < 1 \<or> 1000 < x))"
  then consider (skip) x where "skip = Some x" "x < 0"
    | (limit) x where "limit = Some x" "x < 1 \<or> 1000 < x" by blast
  then have "Query 0 (Some 0) None skip = Inl HTTP_422 \<or>
    ((\<exists>v. Query 0 (Some 0) None skip = Inr v) \<and> Query 100 (Some 1) (Some 1000) limit = Inl HTTP_422)"
  proof cases
    case skip
    then show ?thesis by (simp add: Query_def)
  next
    case limit
    then show ?thesis by (cases skip) (auto simp: Query_def)
  qed
  then show ?thesis
    by (auto simp: get_policies_def search_policies_def split: sum.splits option.splits)
qed

theorem C7_out_of_range_rejected_witness:
  "get_policies test_db (Some (- 1)) None None None None None None None = Inl HTTP_422
   \<and> get_policies test_db None (Some 0) None None None None None None = Inl HTTP_422
   \<and> get_policies test_db None (Some 1001) None None None None None None = Inl HTTP_422
   \<and> search_policies test_db (Some ''Test'') None (Some 1001) = Inl HTTP_422"
  using C7_out_of_range_rejected [of "Some (- 1)" None test_db None None None None None None]
    C7_out_of_range_rejected [of None "Some 0" test_db None None None None None None]
    C7_out_of_range_rejected [of None "Some 1001" test_db None None None None None None]
  by simp

lemma filter_if_falsy_str: "filter_if (Some []) truthy_str cond query = filter_if None truthy_str cond query"
  by (simp add: filter_if_def truthy_str_def)

lemma filter_if_falsy_int: "filter_if (Some 0) truthy_int cond query = filter_if None truthy_int cond query"
  by (simp add: filter_if_def truthy_int_def)

text \<open>
  C9. In the listing, an empty string for \<open>jurisdiction\<close>, \<open>industry\<close> or \<open>status\<close>, or 0
  for \<open>category_id\<close>, gives the result of the same request without that parameter; so does
  an empty \<open>jurisdiction\<close> in the analytics summary. An absent parameter leaves the query
  as it is.
\<close>

theorem C9_falsy_filter_is_absent:
  "get_policies db skip limit (Some []) i s c sd ed = get_policies db skip limit None i s c sd ed
   \<and> get_policies db skip limit j (Some []) s c sd ed = get_policies db skip limit j None s c sd ed
   \<and> get_policies db skip limit j i (Some []) c sd ed = get_policies db skip limit j i None c sd ed
   \<and> get_policies db skip limit j i s (Some 0) sd ed = get_policies db skip limit j i s None sd ed
   \<and> get_policy_analytics_summary db (Some []) sd ed = get_policy_analytics_summary db None sd ed
   \<and> filter_if None truthy cond (policies db) = policies db"
  by (simp add: get_policies_def get_policy_analytics_summary_def filtered_policies_def
      filter_if_falsy_str filter_if_falsy_int truthy_str_def filter_if_def [of None]
      cong: sum.case_cong if_cong)

theorem C9_falsy_filter_is_absent_witness:
  "get_policies test_db None None (Some []) (Some []) (Some []) (Some 0) None None
     = Inr [test_policy\<lparr>id_policy := Some 1\<rparr>]
   \<and> get_policy_analytics_summary test_db (Some []) None None
     = get_policy_analytics_summary test_db None None None"
proof -
  have "get_policies test_db None None (Some []) (Some []) (Some []) (Some 0) None None
      = get_policies test_db None None None (Some []) (Some []) (Some 0) None None"
    using C9_falsy_filter_is_absent [where db = test_db] by blast
  also have "\<dots> = get_policies test_db None None None None (Some []) (Some 0) None None"
    using C9_falsy_filter_is_absent [where db = test_db] by blast
  also have "\<dots> = get_policies test_db None None None None None (Some 0) None None"
    using C9_falsy_filter_is_absent [where db = test_db] by blast
  also have "\<dots> = get_policies test_db None None None None None None None None"
    using C9_falsy_filter_is_absent [where db = test_db] by blast
  also have "\<dots> = Inr [test_policy\<lparr>id_policy := Some 1\<rparr>]"
    by (simp add: get_policies_def Query_def filter_if_def test_db_def)
  finally have listing: "get_policies test_db None None (Some []) (Some []) (Some []) (Some 0) None None
      = Inr [test_policy\<lparr>id_policy := Some 1\<rparr>]" .
  have "get_policy_analytics_summary test_db (Some []) None None
     = get_policy_analytics_summary test_db None None None"
    using C9_falsy_filter_is_absent [where db = test_db] by blast
  with listing show ?thesis by simp
qed

section \<open>Changes of a policy\<close>

lemma find_SomeD: "find P xs = Some x \<Longrightarrow> x \<in> set xs \<and> P x"
  by (induction xs) (auto split: if_splits)

lemma get_policy_404: "get_policy db pid = Inl HTTP_404 \<longleftrightarrow> Some pid \<notin> set (map id_policy (policies db))"
proof (cases "find (\<lambda>p. id_policy p = Some pid) (policies db)")
  case None
  then have "get_policy db pid = Inl HTTP_404" by (simp add: get_policy_def)
  moreover from None have "Some pid \<notin> set (map id_policy (policies db))"
    by (auto simp: find_None_iff)
  ultimately show ?thesis by simp
next
  case (Some a)
  then have "get_policy db pid = Inr a" by (simp add: get_policy_def)
  moreover from find_SomeD [OF Some] have "Some pid \<in> set (map id_policy (policies db))"
    by force
  ultimately show ?thesis by simp
qed

text \<open>
  C10. The changes listing returns the stored changes whose \<open>policy_id\<close> is the requested
  one and never answers 404. Where the single-policy lookup answers 404, and every stored
  change belongs to a stored policy, the listing is the empty list.
\<close>

theorem C10_changes_never_not_found:
  "get_policy_changes db pid = Inr [c \<leftarrow> policy_changes db. policy_id c = pid]
   \<and> get_policy_changes db pid \<noteq> Inl HTTP_404
   \<and> (changes_reference_policies db \<and> get_policy db pid = Inl HTTP_404 \<longrightarrow> get_policy_changes db pid = Inr [])"
proof -
  have "[c \<leftarrow> policy_changes db. policy_id c = pid] = []"
    if "changes_reference_policies db" "get_policy db pid = Inl HTTP_404"
    using that unfolding get_policy_404 changes_reference_policies_def list_all_iff
    by (auto simp: filter_empty_conv)
  then show ?thesis
    by (simp add: get_policy_changes_def)
qed

theorem C10_changes_never_not_found_witness:
  "changes_reference_policies test_db
   \<and> get_policy test_db 2 = Inl HTTP_404
   \<and> get_policy_changes test_db 2 = Inr []
   \<and> get_policy_changes test_db 1 = Inr [test_change]"
  using C10_changes_never_not_found [where db = test_db and pid = 2]
    C10_changes_never_not_found [where db = test_db and pid = 1]
  by (simp add: changes_reference_policies_def get_policy_def test_db_def empty_db_def
      test_policy_def test_change_def)


section \<open>Ordered listings\<close>

lemma set_insert_by: "set (insert_by le x ys) = insert x (set ys)"
  by (induction ys) auto

lemma set_order_by: "set (order_by le rows) = set rows"
  by (induction rows) (auto simp: order_by_def set_insert_by)

lemma sorted_insert_by:
  assumes total: "\<And>a b. le a b \<or> le b a"
    and trans: "\<And>a b c. le a b \<Longrightarrow> le b c \<Longrightarrow> le a c"
  shows "sorted_wrt le ys \<Longrightarrow> sorted_wrt le (insert_by le x ys)"
proof (induction ys)
  case Nil
  then show ?case by simp
next
  case (Cons y ys)
  show ?case
  proof (cases "le x y")
    case True
    with Cons.prems trans show ?thesis by auto
  next
    case False
    with total have "le y x" by blast
    with False Cons show ?thesis by (auto simp: set_insert_by)
  qed
qed

lemma sorted_order_by:
  assumes "\<And>a b. le a b \<or> le b a" and "\<And>a b c. le a b \<Longrightarrow> le b c \<Longrightarrow> le a c"
  shows "sorted_wrt le (order_by le rows)"
proof (induction rows)
  case Nil
  then show ?case by (simp add: order_by_def)
next
  case (Cons r rows)
  have "order_by le (r # rows) = insert_by le r (order_by le rows)"
    by (simp add: order_by_def)
  with Cons sorted_insert_by [of le, OF assms] show ?case by simp
qed

lemma asc_le_total: "asc_le a b \<or> asc_le b a"
  by (cases a; cases b) auto

lemma asc_le_trans: "asc_le a b \<Longrightarrow> asc_le b c \<Longrightarrow> asc_le a c"
  by (cases a; cases b; cases c) auto

lemma desc_le_total: "desc_le a b \<or> desc_le b a"
  by (cases a; cases b) auto

lemma desc_le_trans: "desc_le a b \<Longrightarrow> desc_le b c \<Longrightarrow> desc_le a c"
  by (cases a; cases b; cases c) auto

lemma sorted_order_by_asc: "sorted_wrt (\<lambda>a b. asc_le (col a) (col b)) (order_by (\<lambda>a b. asc_le (col a) (col b)) rows)"
  using asc_le_total asc_le_trans by (intro sorted_order_by) blast+

lemma sorted_order_by_desc: "sorted_wrt (\<lambda>a b. desc_le (col a) (col b)) (order_by (\<lambda>a b. desc_le (col a) (col b)) rows)"
  using desc_le_total desc_le_trans by (intro sorted_order_by) blast+

lemma sorted_wrt_take_page: "sorted_wrt le xs \<Longrightarrow> sorted_wrt le (take n xs)"
  by (induction xs arbitrary: n) (auto simp: take_Cons' dest: in_set_takeD)

lemma sql_or_true: "sql_or a b = Some True \<longleftrightarrow> a = Some True \<or> b = Some True"
  by (auto simp: sql_or_def)

lemma sql_lt_true: "sql_lt col v = Some True \<longleftrightarrow> (\<exists>x. col = Some x \<and> x < v)"
  by (auto simp: sql_lt_def split: option.splits)

lemma sql_ge_true: "sql_ge col v = Some True \<longleftrightarrow> (\<exists>x. col = Some x \<and> v \<le> x)"
  by (auto simp: sql_ge_def split: option.splits)

lemma get_high_risk_policies_page:
  assumes "get_high_risk_policies db limit = Inr page"
  obtains n where
    "page = take n (order_by (\<lambda>a b. asc_le (estimated_impact a) (estimated_impact b))
        (sql_where (\<lambda>p. sql_or (sql_lt (estimated_impact p) (- 100)) (sql_lt (impact_confidence p) 0.6))
           (policies db)))"
  using assms by (auto simp: get_high_risk_policies_def split: sum.splits)

text \<open>
  C4. Every policy of the high-risk listing has an estimated impact below -100 or an
  impact confidence below 0.6, and the listing is in ascending order of estimated impact,
  most negative first; policies without an estimated impact come last.
\<close>

theorem C4_high_risk_listing:
  "get_high_risk_policies db limit = Inr page \<Longrightarrow>
     (\<forall>p\<in>set page. (\<exists>e. estimated_impact p = Some e \<and> e < - 100)
                   \<or> (\<exists>c. impact_confidence p = Some c \<and> c < 0.6))
     \<and> sorted_wrt (\<lambda>a b. \<forall>x y. estimated_impact a = Some x \<and> estimated_impact b = Some y \<longrightarrow> x \<le> y) page
     \<and> sorted_wrt (\<lambda>a b. estimated_impact a = None \<longrightarrow> estimated_impact b = None) page"
proof -
  assume "get_high_risk_policies db limit = Inr page"
  then obtain n where page:
    "page = take n (order_by (\<lambda>a b. asc_le (estimated_impact a) (estimated_impact b))
        (sql_where (\<lambda>p. sql_or (sql_lt (estimated_impact p) (- 100)) (sql_lt (impact_confidence p) 0.6))
           (policies db)))"
    by (rule get_high_risk_policies_page)
  have risky: "(\<exists>e. estimated_impact p = Some e \<and> e < - 100) \<or> (\<exists>c. impact_confidence p = Some c \<and> c < 0.6)"
    if "p \<in> set page" for p
  proof -
    from that have "p \<in> set (sql_where (\<lambda>p. sql_or (sql_lt (estimated_impact p) (- 100))
        (sql_lt (impact_confidence p) 0.6)) (policies db))"
      unfolding page by (auto dest: in_set_takeD simp: set_order_by)
    then show ?thesis
      by (simp add: sql_where_def sql_or_true sql_lt_true)
  qed
  have sorted: "sorted_wrt (\<lambda>a b. asc_le (estimated_impact a) (estimated_impact b)) page"
    unfolding page by (rule sorted_wrt_take_page) (rule sorted_order_by_asc)
  have asc: "sorted_wrt (\<lambda>a b. \<forall>x y. estimated_impact a = Some x \<and> estimated_impact b = Some y \<longrightarrow> x \<le> y) page"
    by (rule sorted_wrt_mono_rel [OF _ sorted]) auto
  have nulls: "sorted_wrt (\<lambda>a b. estimated_impact a = None \<longrightarrow> estimated_impact b = None) page"
  proof (rule sorted_wrt_mono_rel [OF _ sorted])
    fix a b assume "asc_le (estimated_impact a) (estimated_impact b)"
    then show "estimated_impact a = None \<longrightarrow> estimated_impact b = None"
      by (cases "estimated_impact a"; cases "estimated_impact b") auto
  qed
  from risky asc nulls show ?thesis by blast
qed

theorem C4_high_risk_listing_witness:
  "get_high_risk_policies risk_db None =
     Inr [test_policy\<lparr>id_policy := Some 3, policy_number := ''US-TST-0003'', estimated_impact := Some (- 250)\<rparr>,
          test_policy\<lparr>id_policy := Some 1, estimated_impact := Some (- 150), impact_confidence := Some 0.9\<rparr>,
          test_policy\<lparr>id_policy := Some 2, policy_number := ''US-TST-0002'', impact_confidence := Some 0.5\<rparr>]
   \<and> sorted_wrt (\<lambda>a b. \<forall>x y. estimated_impact a = Some x \<and> estimated_impact b = Some y \<longrightarrow> x \<le> y)
       [test_policy\<lparr>id_policy := Some 3, policy_number := ''US-TST-0003'', estimated_impact := Some (- 250)\<rparr>,
        test_policy\<lparr>id_policy := Some 1, estimated_impact := Some (- 150), impact_confidence := Some 0.9\<rparr>,
        test_policy\<lparr>id_policy := Some 2, policy_number := ''US-TST-0002'', impact_confidence := Some 0.5\<rparr>]"
proof -
  have page: "get_high_risk_policies risk_db None =
     Inr [test_policy\<lparr>id_policy := Some 3, policy_number := ''US-TST-0003'', estimated_impact := Some (- 250)\<rparr>,
          test_policy\<lparr>id_policy := Some 1, estimated_impact := Some (- 150), impact_confidence := Some 0.9\<rparr>,
          test_policy\<lparr>id_policy := Some 2, policy_number := ''US-TST-0002'', impact_confidence := Some 0.5\<rparr>]"
    by (simp add: get_high_risk_policies_def Query_def risk_db_def empty_db_def test_policy_def
        sql_where_def sql_or_def sql_lt_def order_by_def)
  from C4_high_risk_listing [OF page] page show ?thesis by blast
qed

lemma get_recent_policies_page:
  assumes "get_recent_policies db now days limit = Inr page"
  obtains n where
    "page = take n (order_by (\<lambda>a b. desc_le (proposed_date a) (proposed_date b))
        (sql_where (\<lambda>p. sql_ge (proposed_date p) (now - timedelta_days (case days of None \<Rightarrow> 30 | Some d \<Rightarrow> d)))
           (policies db)))"
  using assms
  by (cases days) (auto simp: get_recent_policies_def Query_def split: sum.splits if_splits)

text \<open>
  C5. Every policy of the recent listing has a proposed date, not before \<open>now\<close> minus
  \<open>days\<close> days (30 when \<open>days\<close> is absent), and the listing is in descending order of
  proposed date.
\<close>

theorem C5_recent_listing:
  "get_recent_policies db now days limit = Inr page \<Longrightarrow>
     (\<forall>p\<in>set page. \<exists>t. proposed_date p = Some t
          \<and> now - timedelta_days (case days of None \<Rightarrow> 30 | Some d \<Rightarrow> d) \<le> t)
     \<and> sorted_wrt (\<lambda>a b. \<exists>x y. proposed_date a = Some x \<and> proposed_date b = Some y \<and> y \<le> x) page"
proof -
  let ?cutoff = "now - timedelta_days (case days of None \<Rightarrow> 30 | Some d \<Rightarrow> d)"
  assume "get_recent_policies db now days limit = Inr page"
  then obtain n where page:
    "page = take n (order_by (\<lambda>a b. desc_le (proposed_date a) (proposed_date b))
        (sql_where (\<lambda>p. sql_ge (proposed_date p) ?cutoff) (policies db)))"
    by (rule get_recent_policies_page)
  have recent: "\<exists>t. proposed_date p = Some t \<and> ?cutoff \<le> t" if "p \<in> set page" for p
  proof -
    from that have "p \<in> set (sql_where (\<lambda>p. sql_ge (proposed_date p) ?cutoff) (policies db))"
      unfolding page by (auto dest: in_set_takeD simp: set_order_by)
    then show ?thesis
      by (simp add: sql_where_def sql_ge_true)
  qed
  have sorted: "sorted_wrt (\<lambda>a b. desc_le (proposed_date a) (proposed_date b)) page"
    unfolding page by (rule sorted_wrt_take_page) (rule sorted_order_by_desc)
  have "sorted_wrt (\<lambda>a b. \<exists>x y. proposed_date a = Some x \<and> proposed_date b = Some y \<and> y \<le> x) page"
  proof (rule sorted_wrt_mono_rel [OF _ sorted])
    fix a b
    assume "a \<in> set page" "b \<in> set page" "desc_le (proposed_date a) (proposed_date b)"
    with recent [of a] recent [of b]
    show "\<exists>x y. proposed_date a = Some x \<and> proposed_date b = Some y \<and> y \<le> x"
      by auto
  qed
  with recent show ?thesis by blast
qed

theorem C5_recent_listing_witness:
  "get_recent_policies recent_db (timedelta_days 100) (Some 30) None =
     Inr [test_policy\<lparr>id_policy := Some 4, policy_number := ''US-TST-0004'', proposed_date := Some (timedelta_days 95)\<rparr>,
          test_policy\<lparr>id_policy := Some 1, proposed_date := Some (timedelta_days 90)\<rparr>]
   \<and> sorted_wrt (\<lambda>a b. \<exists>x y. proposed_date a = Some x \<and> proposed_date b = Some y \<and> y \<le> x)
       [test_policy\<lparr>id_policy := Some 4, policy_number := ''US-TST-0004'', proposed_date := Some (timedelta_days 95)\<rparr>,
        test_policy\<lparr>id_policy := Some 1, proposed_date := Some (timedelta_days 90)\<rparr>]"
proof -
  have page: "get_recent_policies recent_db (timedelta_days 100) (Some 30) None =
     Inr [test_policy\<lparr>id_policy := Some 4, policy_number := ''US-TST-0004'', proposed_date := Some (timedelta_days 95)\<rparr>,
          test_policy\<lparr>id_policy := Some 1, proposed_date := Some (timedelta_days 90)\<rparr>]"
    by (simp add: get_recent_policies_def Query_def recent_db_def empty_db_def test_policy_def
        sql_where_def sql_ge_def order_by_def timedelta_days_def)
  from C5_recent_listing [OF page] page show ?thesis by blast
qed

lemma get_high_risk_policies_returns:
  "(\<exists>page. get_high_risk_policies db limit = Inr page) \<longleftrightarrow>
     (case limit of None \<Rightarrow> True | Some l \<Rightarrow> 1 \<le> l \<and> l \<le> 500)"
  by (auto simp: get_high_risk_policies_def Query_def split: option.splits)

lemma get_recent_policies_returns:
  "(\<exists>page. get_recent_policies db now days limit = Inr page) \<longleftrightarrow>
     (case days of None \<Rightarrow> True | Some d \<Rightarrow> 1 \<le> d \<and> d \<le> 365)
     \<and> (case limit of None \<Rightarrow> True | Some l \<Rightarrow> 1 \<le> l \<and> l \<le> 500)"
  by (auto simp: get_recent_policies_def Query_def split: option.splits)


section \<open>Create, read, update, delete\<close>

lemma find_snoc:
  "find P (xs @ [x]) = (case find P xs of None \<Rightarrow> (if P x then Some x else None) | Some y \<Rightarrow> Some y)"
  by (induction xs) auto

lemma find_replaced:
  "find P xs = Some found \<Longrightarrow> P new \<Longrightarrow> find P (map (\<lambda>r. if P r then new else r) xs) = Some new"
  by (induction xs) (auto split: if_splits)



lemma create_policy_succeeds_iff:
  "(\<exists>created db1. create_policy db P = (Inr created, db1)) \<longleftrightarrow>
     Some (policies_id_seq db) \<notin> set (map id_policy (policies db))
     \<and> policy_number P \<notin> set (map policy_number (policies db))
     \<and> (case category_id P of None \<Rightarrow> True | Some c \<Rightarrow> c \<in> set (policy_categories db))"
proof -
  have pk: "primary_key_free db (P\<lparr>id_policy := Some (policies_id_seq db)\<rparr>)
      \<longleftrightarrow> Some (policies_id_seq db) \<notin> set (map id_policy (policies db))"
    by (force simp: primary_key_free_def list_all_iff)
  have num: "policy_number_unique db (P\<lparr>id_policy := Some (policies_id_seq db)\<rparr>)
      \<longleftrightarrow> policy_number P \<notin> set (map policy_number (policies db))"
    if "Some (policies_id_seq db) \<notin> set (map id_policy (policies db))"
  proof -
    from that have "id_policy r \<noteq> Some (policies_id_seq db)" if "r \<in> set (policies db)" for r
      using \<open>r \<in> set (policies db)\<close> by force
    then show ?thesis
      unfolding policy_number_unique_def list_all_iff set_map image_iff by simp metis
  qed
  show ?thesis
    using pk num by (auto simp: create_policy_def Let_def category_exists_def)
qed

lemma create_then_get:
  assumes "create_policy db P = (Inr created, db1)"
  shows "created = P\<lparr>id_policy := Some (policies_id_seq db)\<rparr>"
    and "get_policy db1 (policies_id_seq db) = Inr created"
proof -
  let ?row = "P\<lparr>id_policy := Some (policies_id_seq db)\<rparr>"
  from assms have free: "primary_key_free db ?row"
    and created: "created = ?row"
    and db1: "policies db1 = policies db @ [?row]"
    by (auto simp: create_policy_def Let_def split: if_splits)
  from free have "find (\<lambda>p. id_policy p = Some (policies_id_seq db)) (policies db) = None"
    by (auto simp: primary_key_free_def list_all_iff find_None_iff)
  then show "get_policy db1 (policies_id_seq db) = Inr created"
    by (simp add: get_policy_def db1 created find_snoc)
  show "created = ?row" by (rule created)
qed

lemma update_then_get:
  assumes "update_policy db pid (Some Q) = (Inr updated, db2)"
  shows "updated = Q\<lparr>id_policy := Some pid\<rparr>"
    and "get_policy db2 pid = Inr updated"
proof -
  from assms obtain found where found: "find (\<lambda>p. id_policy p = Some pid) (policies db) = Some found"
    by (auto simp: update_policy_def split: option.splits)
  then have id: "id_policy found = Some pid" by (auto dest: find_SomeD)
  from assms found id have updated: "updated = Q\<lparr>id_policy := Some pid\<rparr>"
    and db2: "policies db2 = map (\<lambda>r. if id_policy r = Some pid then updated else r) (policies db)"
    by (auto simp: update_policy_def Let_def split: if_splits)
  from updated have "id_policy updated = Some pid" by simp
  with found have "find (\<lambda>p. id_policy p = Some pid) (policies db2) = Some updated"
    unfolding db2 by (rule find_replaced)
  then show "get_policy db2 pid = Inr updated" by (simp add: get_policy_def)
  show "updated = Q\<lparr>id_policy := Some pid\<rparr>" by (rule updated)
qed


lemma delete_missing_then_get:
  "delete_policy db pid = (Inl HTTP_404, db3) \<Longrightarrow> get_policy db3 pid = Inl HTTP_404"
  by (auto simp: delete_policy_def get_policy_def split: option.splits if_splits)



text \<open>
  With the foreign keys holding, nothing refers to a policy that has just been created,
  so the delete that ends the round trip is not refused.
\<close>

lemma created_policy_can_be_deleted:
  assumes refs: "references_hold db"
    and created: "create_policy db P = (Inr created, db1)"
  shows "\<exists>db3. delete_policy db1 (policies_id_seq db) = (Inr ''Policy deleted successfully'', db3)"
proof -
  let ?i = "policies_id_seq db"
  from created have fresh: "Some ?i \<notin> set (map id_policy (policies db))"
    and tables: "policy_changes db1 = policy_changes db" "impact_assessments db1 = impact_assessments db"
      "policy_predictions db1 = policy_predictions db"
    by (auto simp: create_policy_def Let_def primary_key_free_def list_all_iff split: if_splits)
  from refs fresh have "\<not> referenced db ?i"
    unfolding references_hold_def changes_reference_policies_def referenced_def list_all_iff
    by auto
  then have unref: "\<not> referenced db1 ?i"
    by (simp add: referenced_def tables)
  from create_then_get(2) [OF created]
  obtain row where "find (\<lambda>p. id_policy p = Some ?i) (policies db1) = Some row"
    by (auto simp: get_policy_def split: option.splits)
  with unref show ?thesis
    by (simp add: delete_policy_def)
qed

section \<open>The foreign key of the changes is kept\<close>

lemma create_policy_keeps_changes_fk:
  "changes_reference_policies db \<Longrightarrow> changes_reference_policies (snd (create_policy db P))"
  by (auto simp: create_policy_def Let_def changes_reference_policies_def list_all_iff)

lemma update_policy_keeps_changes_fk:
  assumes "changes_reference_policies db"
  shows "changes_reference_policies (snd (update_policy db pid payload))"
proof (cases "update_policy db pid payload")
  case (Pair r db2)
  show ?thesis
  proof (cases r)
    case (Inl e)
    with Pair have "db2 = db"
      by (auto simp: update_policy_def Let_def split: option.splits if_splits)
    with assms Pair show ?thesis by simp
  next
    case (Inr updated)
    with Pair obtain Q where Q: "payload = Some Q"
      by (auto simp: update_policy_def split: option.splits)
    from Pair Inr Q obtain found where found: "find (\<lambda>p. id_policy p = Some pid) (policies db) = Some found"
      by (auto simp: update_policy_def split: option.splits)
    from Pair Inr Q update_then_get(1) [of db pid Q updated db2]
    have upd: "id_policy updated = Some pid" by simp
    from Pair Inr Q found have db2: "policies db2 = map (\<lambda>r. if id_policy r = Some pid then updated else r) (policies db)"
      and ch: "policy_changes db2 = policy_changes db"
      by (auto simp: update_policy_def Let_def split: if_splits)
    have "map id_policy (policies db2) = map id_policy (policies db)"
      unfolding db2 using upd by (induction "policies db") auto
    with assms ch Pair show ?thesis
      by (simp add: changes_reference_policies_def)
  qed
qed

lemma delete_policy_keeps_changes_fk:
  assumes "changes_reference_policies db"
  shows "changes_reference_policies (snd (delete_policy db pid))"
proof (cases "referenced db pid \<or> find (\<lambda>p. id_policy p = Some pid) (policies db) = None")
  case True
  then have "snd (delete_policy db pid) = db"
    by (auto simp: delete_policy_def split: option.splits)
  with assms show ?thesis by simp
next
  case False
  then have db3: "snd (delete_policy db pid)
      = db\<lparr>policies := filter (\<lambda>r. id_policy r \<noteq> Some pid) (policies db)\<rparr>"
    and unref: "pid \<notin> set (map policy_id (policy_changes db))"
    by (auto simp: delete_policy_def referenced_def split: option.splits)
  from assms unref show ?thesis
    unfolding db3 changes_reference_policies_def list_all_iff by force
qed


section \<open>Search\<close>

lemma of_char_lower_char:
  "(of_char (lower_char c) :: nat) = (if 65 \<le> (of_char c :: nat) \<and> (of_char c :: nat) \<le> 90 then of_char c + 32 else of_char c)"
  by (simp add: lower_char_def Let_def)

lemma lower_char_eq_iff:
  assumes "(of_char d :: nat) < 65 \<or> (90 < (of_char d :: nat) \<and> (of_char d :: nat) < 97) \<or> 122 < (of_char d :: nat)"
  shows "lower_char c = d \<longleftrightarrow> c = d"
proof -
  have "lower_char c = d \<longleftrightarrow> (of_char (lower_char c) :: nat) = of_char d"
    by simp
  also have "\<dots> \<longleftrightarrow> (of_char c :: nat) = of_char d"
    using assms unfolding of_char_lower_char by auto
  also have "\<dots> \<longleftrightarrow> c = d"
    by simp
  finally show ?thesis .
qed

lemma lower_char_percent: "lower_char c = CHR ''%'' \<longleftrightarrow> c = CHR ''%''"
  by (rule lower_char_eq_iff) simp

lemma lower_char_underscore: "lower_char c = CHR ''_'' \<longleftrightarrow> c = CHR ''_''"
  by (rule lower_char_eq_iff) simp

lemma lower_char_backslash: "lower_char c = CHR 0x5C \<longleftrightarrow> c = CHR 0x5C"
  by (rule lower_char_eq_iff) simp

lemma like_match_literals:
  "like_match (map Literal q @ rest) s \<longleftrightarrow> (\<exists>t. s = q @ t \<and> like_match rest t)"
proof (induction q arbitrary: s)
  case Nil
  then show ?case by simp
next
  case (Cons c q)
  then show ?case by (cases s) auto
qed

lemma like_match_any:
  "like_match (AnyString # ps) s \<longleftrightarrow> (\<exists>pre suf. s = pre @ suf \<and> like_match ps suf)"
proof (induction s)
  case Nil
  then show ?case by simp
next
  case (Cons c cs)
  show ?case
  proof
    assume "like_match (AnyString # ps) (c # cs)"
    then consider "like_match ps (c # cs)" | "like_match (AnyString # ps) cs" by auto
    then show "\<exists>pre suf. c # cs = pre @ suf \<and> like_match ps suf"
    proof cases
      case 1
      then have "c # cs = [] @ (c # cs) \<and> like_match ps (c # cs)" by simp
      then show ?thesis by blast
    next
      case 2
      then obtain pre suf where "cs = pre @ suf" "like_match ps suf" using Cons.IH by blast
      then have "c # cs = (c # pre) @ suf \<and> like_match ps suf" by simp
      then show ?thesis by blast
    qed
  next
    assume "\<exists>pre suf. c # cs = pre @ suf \<and> like_match ps suf"
    then obtain pre suf where ps: "c # cs = pre @ suf" "like_match ps suf" by blast
    show "like_match (AnyString # ps) (c # cs)"
    proof (cases pre)
      case Nil
      with ps have "like_match ps (c # cs)" by simp
      then show ?thesis by simp
    next
      case (Cons a pre')
      with ps have "cs = pre' @ suf" by simp
      with ps(2) Cons.IH show ?thesis by auto
    qed
  qed
qed

lemma like_match_only_any: "like_match [AnyString] s"
  by (induction s) auto

lemma like_match_substring:
  "like_match (AnyString # map Literal q @ [AnyString]) s \<longleftrightarrow> sublist q s"
  unfolding like_match_any like_match_literals sublist_def
  by (auto simp: like_match_only_any)

lemma like_pattern_literals:
  assumes "CHR ''%'' \<notin> set q" "CHR ''_'' \<notin> set q" "CHR 0x5C \<notin> set q"
  shows "like_pattern (q @ ''%'') = Some (map Literal q @ [AnyString])"
  using assms
proof (induction q)
  case Nil
  then show ?case by (simp add: like_token_of_def)
next
  case (Cons c q)
  then show ?case by (cases q) (auto simp: like_token_of_def)
qed

lemma lower_percent: "lower (''%'' @ q @ ''%'') = ''%'' @ lower q @ ''%''"
  by (simp add: lower_def lower_char_def)

lemma lower_no_wildcards:
  assumes "CHR ''%'' \<notin> set q" "CHR ''_'' \<notin> set q" "CHR 0x5C \<notin> set q"
  shows "CHR ''%'' \<notin> set (lower q)" "CHR ''_'' \<notin> set (lower q)" "CHR 0x5C \<notin> set (lower q)"
proof -
  have mem: "c \<in> set (lower q) \<longleftrightarrow> (\<exists>x\<in>set q. lower_char x = c)" for c
    by (auto simp: lower_def)
  from assms(1) show "CHR ''%'' \<notin> set (lower q)"
    unfolding mem lower_char_percent by simp
  from assms(2) show "CHR ''_'' \<notin> set (lower q)"
    unfolding mem lower_char_underscore by simp
  from assms(3) show "CHR 0x5C \<notin> set (lower q)"
    unfolding mem lower_char_backslash by simp
qed

lemma like_pattern_substring:
  assumes "CHR ''%'' \<notin> set q" "CHR ''_'' \<notin> set q" "CHR 0x5C \<notin> set q"
  shows "like_pattern (''%'' @ q @ ''%'') = Some (AnyString # map Literal q @ [AnyString])"
proof -
  obtain d cs where rest: "q @ ''%'' = d # cs" by (cases "q @ ''%''") auto
  have "like_pattern (''%'' @ q @ ''%'') = like_pattern (CHR ''%'' # d # cs)"
    using rest by simp
  also have "\<dots> = map_option ((#) AnyString) (like_pattern (d # cs))"
    by (simp add: like_token_of_def)
  also have "\<dots> = Some (AnyString # map Literal q @ [AnyString])"
    using like_pattern_literals [OF assms] rest by simp
  finally show ?thesis .
qed

lemma ilike_substring:
  "ilike col (AnyString # map Literal (lower q) @ [AnyString]) = Some True \<longleftrightarrow> spec_contains q col"
  by (cases col) (simp_all add: ilike_def spec_contains_def like_match_substring)

lemma search_policies_case_insensitive:
  assumes "lower q' = lower q"
  shows "search_policies db (Some q') skip limit = search_policies db (Some q) skip limit"
proof -
  have eq: "lower (CHR ''%'' # q' @ ''%'') = lower (CHR ''%'' # q @ ''%'')"
    using assms by (simp add: lower_def)
  show ?thesis
    by (cases "Query 0 (Some 0) None skip"; cases "Query 100 (Some 1) (Some 1000) limit")
      (simp_all add: search_policies_def eq)
qed

lemma search_policies_no_wildcards:
  assumes "CHR ''%'' \<notin> set q" "CHR ''_'' \<notin> set q" "CHR 0x5C \<notin> set q"
    and skip: "Query 0 (Some 0) None skip = Inr s"
    and limit: "Query 100 (Some 1) (Some 1000) limit = Inr l"
  shows "search_policies db (Some q) skip limit
     = Inr (take (nat l) (drop (nat s) [p \<leftarrow> policies db. spec_search_match q p]))"
proof -
  have pat: "like_pattern (lower (''%'' @ q @ ''%''))
      = Some (AnyString # map Literal (lower q) @ [AnyString])"
    unfolding lower_percent by (rule like_pattern_substring) (rule lower_no_wildcards [OF assms(1-3)])+
  then have pat': "like_pattern (lower (CHR ''%'' # q @ ''%''))
      = Some (AnyString # map Literal (lower q) @ [AnyString])"
    by simp
  show ?thesis
    by (simp add: search_policies_def skip limit pat' sql_where_def sql_or_true ilike_substring
        spec_search_match_def)
qed

text \<open>
  C8, as amended. For a query \<open>q\<close> without the pattern characters \<open>%\<close>, \<open>_\<close> and backslash,
  and \<open>skip\<close> and \<open>limit\<close> within their bounds, the search returns the page
  (\<open>skip\<close> rows dropped, at most \<open>limit\<close> rows kept) of the policies, in storage order, for
  which \<open>q\<close> occurs as a substring of the title, the description or the content summary,
  letter case aside. In particular, when exactly one policy matches and no row is skipped,
  the search returns exactly that policy; and two queries that differ only in letter case
  get the same answer.
\<close>

theorem C8_search_page_of_matches:
  "CHR ''%'' \<notin> set q \<and> CHR ''_'' \<notin> set q \<and> CHR 0x5C \<notin> set q
   \<and> Query 0 (Some 0) None skip = Inr s \<and> Query 100 (Some 1) (Some 1000) limit = Inr l \<Longrightarrow>
     search_policies db (Some q) skip limit
       = Inr (take (nat l) (drop (nat s) [p \<leftarrow> policies db. spec_search_match q p]))
     \<and> ([p \<leftarrow> policies db. spec_search_match q p] = [only] \<and> s = 0 \<longrightarrow>
          search_policies db (Some q) skip limit = Inr [only])
     \<and> (lower q' = lower q \<longrightarrow>
          search_policies db (Some q') skip limit = search_policies db (Some q) skip limit)"
proof -
  assume a: "CHR ''%'' \<notin> set q \<and> CHR ''_'' \<notin> set q \<and> CHR 0x5C \<notin> set q
   \<and> Query 0 (Some 0) None skip = Inr s \<and> Query 100 (Some 1) (Some 1000) limit = Inr l"
  then have page: "search_policies db (Some q) skip limit
       = Inr (take (nat l) (drop (nat s) [p \<leftarrow> policies db. spec_search_match q p]))"
    by (intro search_policies_no_wildcards) simp_all
  from a have "1 \<le> l" by (auto simp: Query_def split: option.splits if_splits)
  then have "take (nat l) [only] = [only]" by (cases "nat l") auto
  with page search_policies_case_insensitive [of q' q db skip limit] show ?thesis by simp
qed

lemma lower_examples:
  "lower ''Carbon Tax'' = ''carbon tax''" "lower ''Levy on emissions'' = ''levy on emissions''"
  "lower ''Corporate tax'' = ''corporate tax''" "lower ''LEVY'' = ''levy''" "lower ''levy'' = ''levy''"
  "lower ''tax'' = ''tax''" "lower ''_'' = ''_''" "lower ''%_%'' = ''%_%''" "lower ''%tax%'' = ''%tax%''"
  by code_simp+

theorem C8_search_page_of_matches_witness:
  "search_policies search_db (Some ''LEVY'') None None
     = Inr [test_policy\<lparr>id_policy := Some 1, title := ''Carbon Tax'', description := Some ''Levy on emissions''\<rparr>]
   \<and> search_policies search_db (Some ''levy'') None None = search_policies search_db (Some ''LEVY'') None None"
proof -
  have m: "[p \<leftarrow> policies search_db. spec_search_match ''LEVY'' p]
     = [test_policy\<lparr>id_policy := Some 1, title := ''Carbon Tax'', description := Some ''Levy on emissions''\<rparr>]"
    by (simp add: search_db_def empty_db_def test_policy_def spec_search_match_def spec_contains_def
        lower_examples sublist_Cons_right)
  have l: "lower ''levy'' = lower ''LEVY''"
    by (simp add: lower_examples)
  from C8_search_page_of_matches [where q = "''LEVY''" and skip = None and limit = None
      and s = 0 and l = 100 and db = search_db and q' = "''levy''"
      and only = "test_policy\<lparr>id_policy := Some 1, title := ''Carbon Tax'', description := Some ''Levy on emissions''\<rparr>"]
    m l
  show ?thesis by (simp add: Query_def)
qed

text \<open>
  C8 as stated fails in two ways. With \<open>limit = 1\<close> the search for \<open>tax\<close> returns the first
  policy only, though the second contains \<open>tax\<close> as well. And the query \<open>_\<close> returns both
  policies, though neither contains an underscore.
\<close>

theorem C8_search_counterexample:
  "search_policies search_db (Some ''tax'') None (Some 1)
     = Inr [test_policy\<lparr>id_policy := Some 1, title := ''Carbon Tax'', description := Some ''Levy on emissions''\<rparr>]
   \<and> [p \<leftarrow> policies search_db. spec_search_match ''tax'' p] = policies search_db
   \<and> search_policies search_db (Some ''_'') None None = Inr (policies search_db)
   \<and> [p \<leftarrow> policies search_db. spec_search_match ''_'' p] = []
   \<and> length (policies search_db) = 2"
  by (simp add: search_policies_def Query_def search_db_def empty_db_def test_policy_def
      spec_search_match_def spec_contains_def lower_examples sublist_Cons_right
      like_token_of_def sql_where_def sql_or_def ilike_def)

end
